theory Spec2Isabelle
  imports Main "HOL-Library.Word" "HOL-Library.Sublist"
begin

section \<open>JavaScript values used by the chat component\<close>

text \<open>
  A JavaScript string is a sequence of UTF-16 code units. String literals of the source
  are ASCII and are written through \<open>js_lit\<close>.
\<close>

type_synonym js_string = "16 word list"

definition js_lit :: "string \<Rightarrow> js_string" where
  "js_lit s = map of_char s"

text \<open>
  \<open>String.prototype.trim\<close> strips the code units that ECMAScript calls WhiteSpace or
  LineTerminator from both ends: TAB, LF, VT, FF, CR, SPACE, NBSP, the Unicode space
  separators, LS, PS and the byte order mark.
\<close>

definition isWhiteSpace :: "16 word \<Rightarrow> bool" where
  "isWhiteSpace c = (c \<in> set [0x0009, 0x000A, 0x000B, 0x000C, 0x000D, 0x0020, 0x00A0,
     0x1680, 0x2000, 0x2001, 0x2002, 0x2003, 0x2004, 0x2005, 0x2006, 0x2007, 0x2008,
     0x2009, 0x200A, 0x2028, 0x2029, 0x202F, 0x205F, 0x3000, 0xFEFF])"

definition trim :: "js_string \<Rightarrow> js_string" where
  "trim s = rev (dropWhile isWhiteSpace (rev (dropWhile isWhiteSpace s)))"

text \<open>The two clock reads of the source: \<open>Date.now()\<close> and \<open>new Date()\<close>, in milliseconds.\<close>

record clock =
  dateNow :: int
  newDate :: int

text \<open>
  What the awaited \<open>chat.sendMessage\<close> can do: reject with an error, or resolve to a
  result whose \<open>text\<close> is a string or \<open>undefined\<close> (\<open>None\<close>). Reading \<open>.trim()\<close> of
  \<open>undefined\<close> throws a TypeError inside the \<open>try\<close> block.
\<close>

datatype js_error = TypeError | ClientError js_string

datatype outcome = Rejected js_error | Resolved "js_string option"

datatype log_entry = LogText js_string | LogError js_string js_error

section \<open>Data model\<close>

datatype sender_tag = User | Bot

datatype chat_role = RoleUser | RoleModel

record file_meta =
  name :: js_string
  size_file :: nat

record js_file = file_meta +
  bytes :: "8 word list"

text \<open>
  A message of the store. \<open>files\<close> is \<open>None\<close> where the source stores \<open>null\<close> or leaves
  the property out (both are falsy when rendered).
\<close>

record message =
  id_msg :: int
  text_msg :: js_string
  sender :: sender_tag
  timestamp :: int
  files :: "file_meta list option"

record content =
  role :: chat_role
  parts :: "js_string list"

record chat_request =
  model :: js_string
  history :: "content list"
  message :: "js_string list"

record recognition =
  continuous :: bool
  interimResults :: bool

datatype engine_call = Start | Stop

text \<open>
  The state the component reads and writes: the module constant \<open>GEMINI_API_KEY\<close>, the
  presence of the speech-recognition constructor in \<open>window\<close>, the React state cells and
  refs, and the effects on the outside: lines written with \<open>console.error\<close>, requests
  handed to the endpoint whose promise has not settled yet, and calls made on the
  recognition engine.
\<close>

record world =
  GEMINI_API_KEY :: "js_string option"
  speechAvailable :: bool
  messages :: "message list"
  inputText :: js_string
  isListening :: bool
  attachedFiles :: "js_file list"
  isTyping :: bool
  recognitionRef :: "recognition option"
  console :: "log_entry list"
  inflight :: "chat_request list"
  engineCalls :: "engine_call list"

section \<open>Module initialisation and initial state\<close>

text \<open>\<open>const ai = GEMINI_API_KEY ? new GoogleGenAI({ apiKey: GEMINI_API_KEY }) : null\<close>;
  the client is represented by the key it was built with.\<close>

definition ai :: "world \<Rightarrow> js_string option" where
  "ai w = (case GEMINI_API_KEY w of
             None \<Rightarrow> None
           | Some k \<Rightarrow> (if k = [] then None else Some k))"

definition greeting :: "int \<Rightarrow> message" where
  "greeting ts =
     \<lparr> id_msg = 1,
       text_msg = js_lit ''Hello! I'm your AI assistant. How can I help you today?'',
       sender = Bot,
       timestamp = ts,
       files = None \<rparr>"

definition initialState :: "js_string option \<Rightarrow> bool \<Rightarrow> int \<Rightarrow> world" where
  "initialState key speech ts =
     \<lparr> GEMINI_API_KEY = key,
       speechAvailable = speech,
       messages = [greeting ts],
       inputText = [],
       isListening = False,
       attachedFiles = [],
       isTyping = False,
       recognitionRef = None,
       console = (if key = None \<or> key = Some []
                  then [LogText (js_lit ''FATAL ERROR: VITE_GEMINI_API_KEY is not set. Please check your .env.local file.'')]
                  else []),
       inflight = [],
       engineCalls = [] \<rparr>"

definition keyMissingMessage :: "clock \<Rightarrow> message" where
  "keyMissingMessage c =
     \<lparr> id_msg = dateNow c + 2,
       text_msg = js_lit ''API Error: The Gemini API key is missing. Please check your **.env.local** file and console for details.'',
       sender = Bot,
       timestamp = newDate c,
       files = None \<rparr>"

text \<open>
  The first mount effect: the "key missing" notice. The effect has an empty dependency
  list, so the \<open>messages\<close> its guard reads is the one of the render that created it
  (\<open>rendered\<close>), while \<open>setMessages((prev) => [...prev, notice])\<close> appends to the store as it
  is when the effect runs.
\<close>

definition keyMissingEffect :: "message list \<Rightarrow> clock \<Rightarrow> world \<Rightarrow> world" where
  "keyMissingEffect rendered c w =
     (if (GEMINI_API_KEY w = None \<or> GEMINI_API_KEY w = Some []) \<and> length rendered = 1
      then w\<lparr> messages := messages w @ [keyMissingMessage c] \<rparr>
      else w)"

text \<open>The second mount effect: create the recognition object when the platform has one.\<close>

definition speechInitEffect :: "world \<Rightarrow> world" where
  "speechInitEffect w =
     (if speechAvailable w
      then w\<lparr> recognitionRef := Some \<lparr> continuous = True, interimResults = True \<rparr> \<rparr>
      else w)"

text \<open>
  Mount: the first render, then the two effects with empty dependency lists, in the order
  of the source, both created by the first render. The third effect only scrolls.
  \<open>startup\<close> runs each mount effect once, as React does in a production build and
  outside \<open>StrictMode\<close>; whether the component is mounted under \<open>StrictMode\<close> is decided
  by the entry point, not by this component. Under a development \<open>StrictMode\<close> React
  runs the mount effects a second time, which for the first effect is \<open>keyMissingEffect\<close>
  applied once more with the same \<open>rendered\<close>.
\<close>

definition startup :: "js_string option \<Rightarrow> bool \<Rightarrow> int \<Rightarrow> clock \<Rightarrow> world" where
  "startup key speech ts c =
     speechInitEffect
       (keyMissingEffect (messages (initialState key speech ts)) c (initialState key speech ts))"

section \<open>Dictation and attachments\<close>

definition toggleListening :: "world \<Rightarrow> world" where
  "toggleListening w =
     (if isListening w
      then (case recognitionRef w of
              None \<Rightarrow> w
            | Some r \<Rightarrow> w\<lparr> engineCalls := engineCalls w @ [Stop] \<rparr>)\<lparr> isListening := False \<rparr>
      else (case recognitionRef w of
              None \<Rightarrow> w
            | Some r \<Rightarrow> w\<lparr> engineCalls := engineCalls w @ [Start] \<rparr>)\<lparr> isListening := True \<rparr>)"

text \<open>
  \<open>onresult\<close>: each result is the list of its alternatives' transcripts. \<open>result[0]\<close> of a
  result with no alternative is \<open>undefined\<close>, and reading its \<open>transcript\<close> throws before
  \<open>setInputText\<close> runs.
\<close>

definition onresult :: "js_string list list \<Rightarrow> world \<Rightarrow> world" where
  "onresult results w =
     (if [] \<in> set results then w
      else w\<lparr> inputText := concat (map hd results) \<rparr>)"

definition onend :: "world \<Rightarrow> world" where
  "onend w = w\<lparr> isListening := False \<rparr>"

definition handleFileAttachment :: "js_file list \<Rightarrow> world \<Rightarrow> world" where
  "handleFileAttachment fs w = w\<lparr> attachedFiles := attachedFiles w @ fs \<rparr>"

definition removeFile :: "nat \<Rightarrow> world \<Rightarrow> world" where
  "removeFile index w =
     w\<lparr> attachedFiles :=
          map snd (filter (\<lambda>(i, f). i \<noteq> index) (enumerate 0 (attachedFiles w))) \<rparr>"

section \<open>sendMessage\<close>

text \<open>The guard of the first line: \<open>!ai || (!inputText.trim() && attachedFiles.length === 0)\<close>.\<close>

definition rejected :: "world \<Rightarrow> bool" where
  "rejected w = (ai w = None \<or> (trim (inputText w) = [] \<and> length (attachedFiles w) = 0))"

definition newMessage :: "clock \<Rightarrow> world \<Rightarrow> message" where
  "newMessage c w =
     \<lparr> id_msg = dateNow c,
       text_msg = inputText w,
       sender = User,
       timestamp = newDate c,
       files = (if length (attachedFiles w) > 0
                then Some (map (\<lambda>f. \<lparr> name = name f, size_file = size_file f \<rparr>) (attachedFiles w))
                else None) \<rparr>"

definition chatHistory :: "message list \<Rightarrow> content list" where
  "chatHistory msgs =
     map (\<lambda>msg. \<lparr> role = (if sender msg = User then RoleUser else RoleModel),
                  parts = [text_msg msg] \<rparr>)
       (filter (\<lambda>msg. text_msg msg \<noteq> []) (drop 1 msgs))"

text \<open>
  The part of \<open>sendMessage\<close> that runs before the \<open>await\<close>: the guard, the four state
  updates, the history built from the \<open>messages\<close> of the render the handler belongs to,
  and the request handed to the client.
\<close>

definition sendMessage_begin :: "clock \<Rightarrow> world \<Rightarrow> world" where
  "sendMessage_begin c w =
     (if rejected w then w
      else w\<lparr> messages := messages w @ [newMessage c w],
              inputText := [],
              attachedFiles := [],
              isTyping := True,
              inflight := inflight w @
                [\<lparr> model = js_lit ''gemini-2.5-flash'',
                   history = chatHistory (messages w),
                   message = [inputText w] \<rparr>] \<rparr>)"

definition botResponse :: "clock \<Rightarrow> js_string \<Rightarrow> message" where
  "botResponse c t =
     \<lparr> id_msg = dateNow c + 1,
       text_msg = trim t,
       sender = Bot,
       timestamp = newDate c,
       files = None \<rparr>"

definition errorResponse :: "clock \<Rightarrow> message" where
  "errorResponse c =
     \<lparr> id_msg = dateNow c + 1,
       text_msg = js_lit ''Sorry, I ran into an error. Please check the browser console for details.'',
       sender = Bot,
       timestamp = newDate c,
       files = None \<rparr>"

definition catch_block :: "js_error \<Rightarrow> clock \<Rightarrow> world \<Rightarrow> world" where
  "catch_block e c w =
     w\<lparr> console := console w @ [LogError (js_lit ''Gemini API Error:'') e],
        messages := messages w @ [errorResponse c] \<rparr>"

text \<open>
  The part of \<open>sendMessage\<close> that runs when the awaited promise settles: the rest of the
  \<open>try\<close> block or the \<open>catch\<close> block, then \<open>finally\<close>.
\<close>

definition sendMessage_resume :: "outcome \<Rightarrow> clock \<Rightarrow> world \<Rightarrow> world" where
  "sendMessage_resume out c w =
     (case out of
        Resolved (Some t) \<Rightarrow> w\<lparr> messages := messages w @ [botResponse c t] \<rparr>
      | Resolved None \<Rightarrow> catch_block TypeError c w
      | Rejected e \<Rightarrow> catch_block e c w)\<lparr> isTyping := False \<rparr>"

section \<open>The event loop\<close>

text \<open>
  Everything that can happen after mount, one event at a time on the single UI thread:
  a submit (Enter or the send button), the settling of the \<open>k\<close>-th outstanding request,
  the dictation control, the recognition engine's callbacks (which exist only when the
  recognition object was created), the file picker, the removal of a staged file and
  typing into the input.
\<close>

datatype event =
    Submit clock
  | Settle nat outcome clock
  | ToggleListening
  | RecognitionResult "js_string list list"
  | RecognitionEnd
  | FilesChosen "js_file list"
  | RemoveFile nat
  | InputChanged js_string

fun step :: "event \<Rightarrow> world \<Rightarrow> world" where
  "step (Submit c) w = sendMessage_begin c w"
| "step (Settle k out c) w =
     (if k < length (inflight w)
      then sendMessage_resume out c (w\<lparr> inflight := take k (inflight w) @ drop (Suc k) (inflight w) \<rparr>)
      else w)"
| "step ToggleListening w = toggleListening w"
| "step (RecognitionResult results) w =
     (if recognitionRef w = None then w else onresult results w)"
| "step RecognitionEnd w =
     (if recognitionRef w = None then w else onend w)"
| "step (FilesChosen fs) w = handleFileAttachment fs w"
| "step (RemoveFile index) w = removeFile index w"
| "step (InputChanged s) w = w\<lparr> inputText := s \<rparr>"

fun run :: "event list \<Rightarrow> world \<Rightarrow> world" where
  "run [] w = w"
| "run (e # es) w = run es (step e w)"

section \<open>The history as the design describes it\<close>

text \<open>
  The design's words for the outbound history: take the messages after the first one,
  leave out those whose text is empty, and turn each of the others into a role
  (user for a user sender, the model-side role for an assistant sender) with a single
  text part.
\<close>

fun spec_entries :: "message list \<Rightarrow> content list" where
  "spec_entries [] = []"
| "spec_entries (m # ms) =
     (if text_msg m = [] then spec_entries ms
      else \<lparr> role = (case sender m of User \<Rightarrow> RoleUser | Bot \<Rightarrow> RoleModel),
             parts = [text_msg m] \<rparr> # spec_entries ms)"

fun spec_history :: "message list \<Rightarrow> content list" where
  "spec_history [] = []"
| "spec_history (first # prior) = spec_entries prior"

section \<open>Predicates on executions and messages\<close>

text \<open>An event overlaps when it is a submit that passes the guard while a request is
  outstanding; an execution is sequential when none of its events overlaps.\<close>

fun overlapping :: "event \<Rightarrow> world \<Rightarrow> bool" where
  "overlapping (Submit c) w = (inflight w \<noteq> [] \<and> \<not> rejected w)"
| "overlapping e w = False"

fun sequential :: "event list \<Rightarrow> world \<Rightarrow> bool" where
  "sequential [] w = True"
| "sequential (e # es) w = (\<not> overlapping e w \<and> sequential es (step e w))"



section \<open>Example inputs\<close>

definition tick :: "int \<Rightarrow> clock" where
  "tick t = \<lparr> dateNow = t, newDate = t \<rparr>"

text \<open>A session with a credential and without a speech engine, mounted at time 0.\<close>

definition fresh :: world where
  "fresh = startup (Some (js_lit ''key'')) False 0 (tick 0)"

text \<open>A session without a credential.\<close>

definition keyless :: world where
  "keyless = startup None False 0 (tick 0)"

definition notes_txt :: js_file where
  "notes_txt = \<lparr> name = js_lit ''notes.txt'', size_file = 3, bytes = [0x61, 0x62, 0x63] \<rparr>"

section \<open>Basic facts\<close>

lemmas handler_defs =
  sendMessage_begin_def sendMessage_resume_def catch_block_def toggleListening_def
  onresult_def onend_def handleFileAttachment_def removeFile_def

lemmas startup_defs = startup_def speechInitEffect_def keyMissingEffect_def initialState_def

lemmas eval_defs = rejected_def ai_def trim_def js_lit_def isWhiteSpace_def tick_def


lemma startup_messages:
  "messages (startup key speech ts c) =
     (if key = None \<or> key = Some [] then [greeting ts, keyMissingMessage c] else [greeting ts])"
  by (simp add: startup_defs)

lemma startup_idle:
  "inflight (startup key speech ts c) = [] \<and> \<not> isTyping (startup key speech ts c)"
  by (simp add: startup_defs)

lemma startup_key: "GEMINI_API_KEY (startup key speech ts c) = key"
  by (simp add: startup_defs)

lemma fresh_eq:
  "fresh = \<lparr> GEMINI_API_KEY = Some (js_lit ''key''), speechAvailable = False,
             messages = [greeting 0], inputText = [], isListening = False,
             attachedFiles = [], isTyping = False, recognitionRef = None, console = [],
             inflight = [], engineCalls = [] \<rparr>"
  by (simp add: fresh_def startup_defs js_lit_def)

lemma keyless_eq:
  "keyless = \<lparr> GEMINI_API_KEY = None, speechAvailable = False,
             messages = [greeting 0, keyMissingMessage (tick 0)], inputText = [],
             isListening = False, attachedFiles = [], isTyping = False,
             recognitionRef = None,
             console = [LogText (js_lit ''FATAL ERROR: VITE_GEMINI_API_KEY is not set. Please check your .env.local file.'')],
             inflight = [], engineCalls = [] \<rparr>"
  by (simp add: keyless_def startup_defs)

lemma step_key: "GEMINI_API_KEY (step e w) = GEMINI_API_KEY w"
  by (cases e) (auto simp: handler_defs split: outcome.splits option.splits)

lemma run_key: "GEMINI_API_KEY (run evs w) = GEMINI_API_KEY w"
  by (induction evs arbitrary: w) (simp_all add: step_key)

lemma resume_messages_prefix: "prefix (messages w) (messages (sendMessage_resume out c w))"
  by (auto simp: sendMessage_resume_def catch_block_def split: outcome.splits option.splits)

lemma step_messages_prefix: "prefix (messages w) (messages (step e w))"
  by (cases e) (auto simp: handler_defs split: outcome.splits option.splits)

lemma run_messages_prefix: "prefix (messages w) (messages (run evs w))"
proof (induction evs arbitrary: w)
  case Nil
  show ?case by simp
next
  case (Cons e es)
  have "prefix (messages w) (messages (step e w))"
    by (rule step_messages_prefix)
  also have "prefix (messages (step e w)) (messages (run es (step e w)))"
    by (rule Cons.IH)
  finally show ?case by simp
qed

section \<open>Submitting a message\<close>

text \<open>
  C1: a submit that passes the guard and whose request resolves with text \<open>t\<close> appends
  exactly two messages, in order: the user message carrying the submitted text, then an
  assistant message whose text is \<open>t\<close> trimmed; \<open>isTyping\<close> is false when the call is
  over. The continuation appends its one message to whatever the store holds when the
  response arrives.
\<close>

theorem sendMessage_success:
  assumes "\<not> rejected w"
  shows "messages (run [Submit c1, Settle (length (inflight w)) (Resolved (Some t)) c2] w)
           = messages w @ [newMessage c1 w, botResponse c2 t]
       \<and> sender (newMessage c1 w) = User \<and> text_msg (newMessage c1 w) = inputText w
       \<and> sender (botResponse c2 t) = Bot \<and> text_msg (botResponse c2 t) = trim t
       \<and> \<not> isTyping (run [Submit c1, Settle (length (inflight w)) (Resolved (Some t)) c2] w)
       \<and> messages (step (Submit c1) w) = messages w @ [newMessage c1 w]
       \<and> messages (sendMessage_resume (Resolved (Some t)) c2 w') = messages w' @ [botResponse c2 t]
       \<and> \<not> isTyping (sendMessage_resume (Resolved (Some t)) c2 w')"
  using assms
  by (simp add: sendMessage_begin_def sendMessage_resume_def newMessage_def botResponse_def)

text \<open>Scenario A: "Hello" is submitted in a new session and the endpoint answers "Hi there".\<close>

theorem sendMessage_success_witness:
  "\<not> rejected (step (InputChanged (js_lit ''Hello'')) fresh)
   \<and> map text_msg (messages (run [Submit (tick 1000),
         Settle 0 (Resolved (Some (js_lit '' Hi there ''))) (tick 2000)]
         (step (InputChanged (js_lit ''Hello'')) fresh)))
     = [text_msg (greeting 0), js_lit ''Hello'', js_lit ''Hi there'']
   \<and> \<not> isTyping (run [Submit (tick 1000),
         Settle 0 (Resolved (Some (js_lit '' Hi there ''))) (tick 2000)]
         (step (InputChanged (js_lit ''Hello'')) fresh))"
proof -
  have h: "\<not> rejected (step (InputChanged (js_lit ''Hello'')) fresh)"
    by (simp add: fresh_eq eval_defs)
  show ?thesis
    using h sendMessage_success [OF h, of "tick 1000" "js_lit '' Hi there ''" "tick 2000"]
    by (simp add: fresh_eq handler_defs eval_defs newMessage_def botResponse_def)
qed

text \<open>
  C2: a submit that passes the guard and whose request is rejected with error \<open>e\<close>
  appends exactly two messages: the user message, then an assistant message with the
  fixed error text; \<open>e\<close> is written to the console, and \<open>isTyping\<close> is false when the
  call is over. The continuation does the same in whatever state the store, the input and
  the console are when the rejection arrives.
\<close>

theorem sendMessage_failure:
  assumes "\<not> rejected w"
  shows "messages (run [Submit c1, Settle (length (inflight w)) (Rejected e) c2] w)
           = messages w @ [newMessage c1 w, errorResponse c2]
       \<and> sender (newMessage c1 w) = User \<and> text_msg (newMessage c1 w) = inputText w
       \<and> sender (errorResponse c2) = Bot
       \<and> text_msg (errorResponse c2) =
           js_lit ''Sorry, I ran into an error. Please check the browser console for details.''
       \<and> console (run [Submit c1, Settle (length (inflight w)) (Rejected e) c2] w)
           = console w @ [LogError (js_lit ''Gemini API Error:'') e]
       \<and> \<not> isTyping (run [Submit c1, Settle (length (inflight w)) (Rejected e) c2] w)
       \<and> messages (step (Submit c1) w) = messages w @ [newMessage c1 w]
       \<and> messages (sendMessage_resume (Rejected e) c2 w') = messages w' @ [errorResponse c2]
       \<and> console (sendMessage_resume (Rejected e) c2 w')
           = console w' @ [LogError (js_lit ''Gemini API Error:'') e]
       \<and> \<not> isTyping (sendMessage_resume (Rejected e) c2 w')
       \<and> id_msg (errorResponse c2) = dateNow c2 + 1
       \<and> timestamp (errorResponse c2) = newDate c2
       \<and> files (errorResponse c2) = None"
  using assms
  by (simp add: sendMessage_begin_def sendMessage_resume_def catch_block_def newMessage_def
        errorResponse_def)

text \<open>Scenario C: "Hi" is submitted in a new session and the client throws; and the same
  with more text typed while the request is outstanding.\<close>

theorem sendMessage_failure_witness:
  "\<not> rejected (step (InputChanged (js_lit ''Hi'')) fresh)
   \<and> map text_msg (messages (run [Submit (tick 1000),
         Settle 0 (Rejected (ClientError (js_lit ''offline''))) (tick 2000)]
         (step (InputChanged (js_lit ''Hi'')) fresh)))
     = [text_msg (greeting 0), js_lit ''Hi'', text_msg (errorResponse (tick 2000))]
   \<and> console (run [Submit (tick 1000),
         Settle 0 (Rejected (ClientError (js_lit ''offline''))) (tick 2000)]
         (step (InputChanged (js_lit ''Hi'')) fresh))
     = [LogError (js_lit ''Gemini API Error:'') (ClientError (js_lit ''offline''))]
   \<and> map text_msg (messages (run [Submit (tick 1000), InputChanged (js_lit ''more''),
         Settle 0 (Rejected (ClientError (js_lit ''offline''))) (tick 2000)]
         (step (InputChanged (js_lit ''Hi'')) fresh)))
     = [text_msg (greeting 0), js_lit ''Hi'', text_msg (errorResponse (tick 2000))]
   \<and> console (run [Submit (tick 1000), InputChanged (js_lit ''more''),
         Settle 0 (Rejected (ClientError (js_lit ''offline''))) (tick 2000)]
         (step (InputChanged (js_lit ''Hi'')) fresh))
     = [LogError (js_lit ''Gemini API Error:'') (ClientError (js_lit ''offline''))]
   \<and> \<not> isTyping (run [Submit (tick 1000), InputChanged (js_lit ''more''),
         Settle 0 (Rejected (ClientError (js_lit ''offline''))) (tick 2000)]
         (step (InputChanged (js_lit ''Hi'')) fresh))"
proof -
  have h: "\<not> rejected (step (InputChanged (js_lit ''Hi'')) fresh)"
    by (simp add: fresh_eq eval_defs)
  show ?thesis
    using h sendMessage_failure [OF h, of "tick 1000" "ClientError (js_lit ''offline'')" "tick 2000"]
    by (simp add: fresh_eq handler_defs eval_defs newMessage_def errorResponse_def)
qed

section \<open>The outbound history\<close>

lemma spec_entries_eq:
  "spec_entries ms =
     map (\<lambda>msg. \<lparr> role = (if sender msg = User then RoleUser else RoleModel),
                  parts = [text_msg msg] \<rparr>) (filter (\<lambda>msg. text_msg msg \<noteq> []) ms)"
  by (induction ms) (auto split: sender_tag.splits)

lemma chatHistory_spec: "chatHistory msgs = spec_history msgs"
  by (cases msgs) (simp_all add: chatHistory_def spec_entries_eq)

lemma spec_entries_parts: "list_all (\<lambda>h. \<exists>t. parts h = [t] \<and> t \<noteq> []) (spec_entries ms)"
  by (induction ms) simp_all

lemma spec_history_parts: "list_all (\<lambda>h. \<exists>t. parts h = [t] \<and> t \<noteq> []) (spec_history ms)"
  by (cases ms) (simp_all add: spec_entries_parts)

text \<open>
  C3: a submit that passes the guard hands the endpoint one request, whose history is
  built from the store as it was when the submit began: the first message is dropped,
  every message with empty text is dropped, and each remaining message becomes a user or
  model role with its text as the single part. The history does not depend on the first
  message, and every entry has one non-empty text part.
\<close>

theorem history_built:
  assumes "\<not> rejected w"
  shows "inflight (step (Submit c) w)
           = inflight w @ [\<lparr> model = js_lit ''gemini-2.5-flash'',
                              history = spec_history (messages w),
                              message = [inputText w] \<rparr>]
       \<and> spec_history (first # prior) = spec_history (first' # prior)
       \<and> list_all (\<lambda>h. \<exists>t. parts h = [t] \<and> t \<noteq> []) (spec_history (messages w))"
  using assms by (simp add: sendMessage_begin_def chatHistory_spec spec_history_parts)

text \<open>
  A store holding the greeting, a user message with a file and no text, and the answer
  "ok": the history of the next submit is the answer alone.
\<close>

theorem history_built_witness:
  "\<not> rejected (run [FilesChosen [notes_txt], Submit (tick 1000),
        Settle 0 (Resolved (Some (js_lit ''ok''))) (tick 2000),
        InputChanged (js_lit ''next'')] fresh)
   \<and> map text_msg (messages (run [FilesChosen [notes_txt], Submit (tick 1000),
        Settle 0 (Resolved (Some (js_lit ''ok''))) (tick 2000),
        InputChanged (js_lit ''next'')] fresh))
     = [text_msg (greeting 0), [], js_lit ''ok'']
   \<and> map history (inflight (step (Submit (tick 3000))
        (run [FilesChosen [notes_txt], Submit (tick 1000),
          Settle 0 (Resolved (Some (js_lit ''ok''))) (tick 2000),
          InputChanged (js_lit ''next'')] fresh)))
     = [[\<lparr> role = RoleModel, parts = [js_lit ''ok''] \<rparr>]]"
proof -
  have h: "\<not> rejected (run [FilesChosen [notes_txt], Submit (tick 1000),
        Settle 0 (Resolved (Some (js_lit ''ok''))) (tick 2000),
        InputChanged (js_lit ''next'')] fresh)"
    by (simp add: fresh_eq handler_defs eval_defs)
  show ?thesis
    using h history_built [OF h, of "tick 3000"]
    by (simp add: fresh_eq handler_defs eval_defs newMessage_def botResponse_def notes_txt_def)
qed

section \<open>Rejected submits\<close>

text \<open>
  C4: when the client was never created (the key is missing or empty), or when the input
  is blank after trimming and no file is staged, a submit changes nothing: the store, the
  input, the staged files and \<open>isTyping\<close> stay as they are and no request is issued.
\<close>

theorem sendMessage_rejected_noop:
  assumes "GEMINI_API_KEY w = None \<or> GEMINI_API_KEY w = Some []
           \<or> (trim (inputText w) = [] \<and> attachedFiles w = [])"
  shows "step (Submit c) w = w
       \<and> messages (step (Submit c) w) = messages w
       \<and> inputText (step (Submit c) w) = inputText w
       \<and> attachedFiles (step (Submit c) w) = attachedFiles w
       \<and> isTyping (step (Submit c) w) = isTyping w
       \<and> inflight (step (Submit c) w) = inflight w"
  using assms by (auto simp: sendMessage_begin_def rejected_def ai_def)

text \<open>Scenario B with a blank input of two spaces, and a submit of "Hello" without a key.\<close>

theorem sendMessage_rejected_noop_witness:
  "(trim (inputText (step (InputChanged (js_lit ''  '')) fresh)) = []
      \<and> attachedFiles (step (InputChanged (js_lit ''  '')) fresh) = [])
   \<and> step (Submit (tick 1000)) (step (InputChanged (js_lit ''  '')) fresh)
       = step (InputChanged (js_lit ''  '')) fresh
   \<and> GEMINI_API_KEY (step (InputChanged (js_lit ''Hello'')) keyless) = None
   \<and> step (Submit (tick 1000)) (step (InputChanged (js_lit ''Hello'')) keyless)
       = step (InputChanged (js_lit ''Hello'')) keyless"
proof -
  have b: "trim (inputText (step (InputChanged (js_lit ''  '')) fresh)) = []
      \<and> attachedFiles (step (InputChanged (js_lit ''  '')) fresh) = []"
    by (simp add: fresh_eq eval_defs)
  have k: "GEMINI_API_KEY (step (InputChanged (js_lit ''Hello'')) keyless) = None"
    by (simp add: keyless_eq)
  show ?thesis
    using b k
      sendMessage_rejected_noop [of "step (InputChanged (js_lit ''  '')) fresh" "tick 1000"]
      sendMessage_rejected_noop [of "step (InputChanged (js_lit ''Hello'')) keyless" "tick 1000"]
    by simp
qed

section \<open>The store only grows\<close>

text \<open>
  C5: the store starts as the greeting alone, an assistant message. The key-missing
  notice, every event, both ways a request can settle and every sequence of events leave
  the old store as a prefix of the new one, so nothing is changed, reordered or removed;
  the first message of the store is the greeting at every point of a session.
\<close>

theorem store_append_only:
  "messages (initialState key speech ts) = [greeting ts]
   \<and> sender (greeting ts) = Bot
   \<and> prefix (messages w) (messages (keyMissingEffect rendered c w))
   \<and> prefix (messages w) (messages (step e w))
   \<and> prefix (messages w) (messages (sendMessage_resume out c w))
   \<and> prefix (messages w) (messages (run evs w))
   \<and> (\<exists>rest. messages (run evs (startup key speech ts c)) = greeting ts # rest)"
proof -
  have "prefix (messages (startup key speech ts c)) (messages (run evs (startup key speech ts c)))"
    by (rule run_messages_prefix)
  then have "\<exists>rest. messages (run evs (startup key speech ts c)) = greeting ts # rest"
    by (auto simp: startup_messages prefix_def split: if_splits)
  moreover have "prefix (messages w) (messages (keyMissingEffect rendered c w))"
    by (simp add: keyMissingEffect_def)
  ultimately show ?thesis
    by (simp add: step_messages_prefix run_messages_prefix resume_messages_prefix
          initialState_def greeting_def)
qed

section \<open>A missing credential\<close>

lemma step_ai: "ai (step e w) = ai w"
  by (simp add: ai_def step_key)

lemma step_keyless:
  assumes "ai w = None" and "inflight w = []"
  shows "messages (step e w) = messages w \<and> inflight (step e w) = []"
  using assms
  by (cases e) (auto simp: handler_defs rejected_def split: option.splits)

lemma run_keyless:
  "ai w = None \<Longrightarrow> inflight w = [] \<Longrightarrow>
     messages (run evs w) = messages w \<and> inflight (run evs w) = []"
proof (induction evs arbitrary: w)
  case Nil
  then show ?case by simp
next
  case (Cons e es)
  from Cons.prems have s: "messages (step e w) = messages w \<and> inflight (step e w) = []"
    by (rule step_keyless)
  from Cons.prems(1) have "ai (step e w) = None"
    by (simp add: step_ai)
  with s Cons.IH [of "step e w"] show ?case by simp
qed

text \<open>A second run of the first mount effect appends a second notice: its guard still
  reads the one-message store of the first render.\<close>

lemma keyMissingEffect_second_run:
  assumes "key = None \<or> key = Some []"
  shows "messages (keyMissingEffect (messages (initialState key speech ts)) c'
                     (startup key speech ts c))
           = [greeting ts, keyMissingMessage c, keyMissingMessage c']"
  using assms by (auto simp: startup_defs)

text \<open>
  C7: when the key is missing or empty at startup (the mount effect running once), the
  store after mount is the greeting followed by exactly one message: sender assistant, the
  fixed configuration-error text, id \<open>Date.now() + 2\<close>, no attachments; whatever happens
  next, the store stays as it is, no request is issued and every submit leaves the state
  unchanged.
\<close>

theorem missing_credential:
  assumes "key = None \<or> key = Some []"
  shows "messages (startup key speech ts c) = [greeting ts, keyMissingMessage c]
       \<and> keyMissingMessage c =
           \<lparr> id_msg = dateNow c + 2,
             text_msg = js_lit ''API Error: The Gemini API key is missing. Please check your **.env.local** file and console for details.'',
             sender = Bot,
             timestamp = newDate c,
             files = None \<rparr>
       \<and> step (Submit c') (run evs (startup key speech ts c)) = run evs (startup key speech ts c)
       \<and> messages (run evs (startup key speech ts c)) = [greeting ts, keyMissingMessage c]
       \<and> inflight (run evs (startup key speech ts c)) = []"
proof -
  have a: "ai (startup key speech ts c) = None"
    using assms by (auto simp: ai_def startup_key)
  then have "ai (run evs (startup key speech ts c)) = None"
    by (simp add: ai_def run_key startup_key)
  then have "step (Submit c') (run evs (startup key speech ts c)) = run evs (startup key speech ts c)"
    by (simp add: sendMessage_begin_def rejected_def)
  moreover have "messages (run evs (startup key speech ts c)) = messages (startup key speech ts c)
      \<and> inflight (run evs (startup key speech ts c)) = []"
    using a startup_idle [of key speech ts c] by (simp add: run_keyless)
  moreover have "messages (startup key speech ts c) = [greeting ts, keyMissingMessage c]"
    using assms by (auto simp: startup_messages)
  ultimately show ?thesis
    by (simp add: keyMissingMessage_def)
qed

text \<open>Scenario D: no key, then "Hello" is typed and submitted.\<close>

theorem missing_credential_witness:
  "((None :: js_string option) = None \<or> (None :: js_string option) = Some [])
   \<and> messages (startup None False 0 (tick 0)) = [greeting 0, keyMissingMessage (tick 0)]
   \<and> step (Submit (tick 1000)) (run [InputChanged (js_lit ''Hello'')] (startup None False 0 (tick 0)))
       = run [InputChanged (js_lit ''Hello'')] (startup None False 0 (tick 0))
   \<and> messages (run [InputChanged (js_lit ''Hello''), Submit (tick 1000)] (startup None False 0 (tick 0)))
       = [greeting 0, keyMissingMessage (tick 0)]"
  using missing_credential [of None False 0 "tick 0" "tick 1000" "[InputChanged (js_lit ''Hello'')]"]
    missing_credential [of None False 0 "tick 0" "tick 1000" "[InputChanged (js_lit ''Hello''), Submit (tick 1000)]"]
  by simp

text \<open>The same with a key that is the empty string.\<close>

lemma empty_key_startup:
  "messages (run [InputChanged (js_lit ''Hello''), Submit (tick 1000)] (startup (Some []) False 0 (tick 0)))
     = [greeting 0, keyMissingMessage (tick 0)]"
  by (simp add: startup_defs handler_defs eval_defs)

section \<open>Requests in flight\<close>

text \<open>
  C6, as stated, fails: nothing stops a second submit while a request is outstanding.
  Two submits in a row leave two requests in flight; when the first of them settles,
  \<open>isTyping\<close> is false although the second is still in flight.
\<close>

theorem one_request_counterexample:
  "length (inflight (run [InputChanged (js_lit ''a''), Submit (tick 1000),
                          InputChanged (js_lit ''b''), Submit (tick 1500)] fresh)) = 2
   \<and> inflight (run [InputChanged (js_lit ''a''), Submit (tick 1000),
                    InputChanged (js_lit ''b''), Submit (tick 1500),
                    Settle 0 (Resolved (Some (js_lit ''x''))) (tick 2000)] fresh) \<noteq> []
   \<and> \<not> isTyping (run [InputChanged (js_lit ''a''), Submit (tick 1000),
                    InputChanged (js_lit ''b''), Submit (tick 1500),
                    Settle 0 (Resolved (Some (js_lit ''x''))) (tick 2000)] fresh)"
  by (simp add: fresh_eq handler_defs eval_defs)

lemma step_typing_inv:
  assumes "isTyping w \<longrightarrow> inflight w \<noteq> []"
  shows "isTyping (step e w) \<longrightarrow> inflight (step e w) \<noteq> []"
proof (cases e)
  case (Submit c)
  with assms show ?thesis
    by (simp add: sendMessage_begin_def)
next
  case (Settle k out c)
  with assms show ?thesis
    by (simp add: sendMessage_resume_def)
qed (use assms in \<open>auto simp: handler_defs split: option.splits\<close>)

lemma run_typing_inv:
  "(isTyping w \<longrightarrow> inflight w \<noteq> []) \<Longrightarrow>
     (isTyping (run evs w) \<longrightarrow> inflight (run evs w) \<noteq> [])"
proof (induction evs arbitrary: w)
  case Nil
  then show ?case by simp
next
  case (Cons e es)
  from Cons.prems have "isTyping (step e w) \<longrightarrow> inflight (step e w) \<noteq> []"
    by (rule step_typing_inv)
  then show ?case
    using Cons.IH [of "step e w"] by simp
qed

lemma step_seq_inv:
  assumes "\<not> overlapping e w" and "length (inflight w) \<le> 1"
    and "isTyping w = (inflight w \<noteq> [])"
  shows "length (inflight (step e w)) \<le> 1
       \<and> isTyping (step e w) = (inflight (step e w) \<noteq> [])"
proof (cases e)
  case (Submit c)
  with assms show ?thesis
    by (cases "rejected w") (simp_all add: sendMessage_begin_def)
next
  case (Settle k out c)
  with assms show ?thesis
    by (cases "inflight w")
       (auto simp: sendMessage_resume_def catch_block_def split: outcome.splits option.splits)
qed (use assms in \<open>auto simp: handler_defs split: option.splits\<close>)

lemma run_seq_inv:
  "sequential evs w \<Longrightarrow> length (inflight w) \<le> 1 \<Longrightarrow> isTyping w = (inflight w \<noteq> []) \<Longrightarrow>
     length (inflight (run evs w)) \<le> 1 \<and> isTyping (run evs w) = (inflight (run evs w) \<noteq> [])"
proof (induction evs arbitrary: w)
  case Nil
  then show ?case by simp
next
  case (Cons e es)
  from Cons.prems have no: "\<not> overlapping e w" and seq: "sequential es (step e w)"
    by simp_all
  from no Cons.prems(2,3)
  have "length (inflight (step e w)) \<le> 1 \<and> isTyping (step e w) = (inflight (step e w) \<noteq> [])"
    by (rule step_seq_inv)
  with seq show ?case
    using Cons.IH [of "step e w"] by simp
qed

text \<open>
  C6, amended. Every submit that passes the guard sets \<open>isTyping\<close> and issues exactly one
  request, whether or not others are outstanding; every settling removes one request and
  clears \<open>isTyping\<close>; at every point of a session \<open>isTyping\<close> is true only when a request
  is in flight. Along every execution from startup in which no submit passes the guard
  while a request is outstanding, at every point at most one request is in flight and
  \<open>isTyping\<close> is true exactly when one is.
\<close>

theorem isTyping_sequential:
  "(\<not> rejected w \<longrightarrow>
       isTyping (step (Submit c1) w)
     \<and> length (inflight (step (Submit c1) w)) = length (inflight w) + 1)
   \<and> (k < length (inflight w) \<longrightarrow>
       \<not> isTyping (step (Settle k out c2) w)
     \<and> length (inflight (step (Settle k out c2) w)) + 1 = length (inflight w))
   \<and> (isTyping (run evs (startup key speech ts c))
       \<longrightarrow> inflight (run evs (startup key speech ts c)) \<noteq> [])
   \<and> (sequential evs (startup key speech ts c) \<longrightarrow>
       length (inflight (run evs (startup key speech ts c))) \<le> 1
     \<and> isTyping (run evs (startup key speech ts c))
         = (inflight (run evs (startup key speech ts c)) \<noteq> []))"
proof -
  have a: "\<not> rejected w \<longrightarrow>
       isTyping (step (Submit c1) w)
     \<and> length (inflight (step (Submit c1) w)) = length (inflight w) + 1"
    by (simp add: sendMessage_begin_def)
  have b: "k < length (inflight w) \<longrightarrow>
       \<not> isTyping (step (Settle k out c2) w)
     \<and> length (inflight (step (Settle k out c2) w)) + 1 = length (inflight w)"
    by (auto simp: sendMessage_resume_def catch_block_def split: outcome.splits option.splits)
  have c: "isTyping (run evs (startup key speech ts c))
       \<longrightarrow> inflight (run evs (startup key speech ts c)) \<noteq> []"
    by (rule run_typing_inv) (simp add: startup_idle)
  have d: "sequential evs (startup key speech ts c) \<longrightarrow>
       length (inflight (run evs (startup key speech ts c))) \<le> 1
     \<and> isTyping (run evs (startup key speech ts c))
         = (inflight (run evs (startup key speech ts c)) \<noteq> [])"
    using run_seq_inv [of evs "startup key speech ts c"] startup_idle [of key speech ts c]
    by simp
  from a b c d show ?thesis
    by blast
qed

text \<open>
  One turn, observed while the request is outstanding (with a second Enter on the
  emptied input, which the guard rejects) and after the request has settled.
\<close>

theorem isTyping_sequential_witness:
  "sequential [InputChanged (js_lit ''a''), Submit (tick 1000), Submit (tick 1100)]
     (startup (Some (js_lit ''key'')) False 0 (tick 0))
   \<and> length (inflight (run [InputChanged (js_lit ''a''), Submit (tick 1000), Submit (tick 1100)]
       (startup (Some (js_lit ''key'')) False 0 (tick 0)))) = 1
   \<and> isTyping (run [InputChanged (js_lit ''a''), Submit (tick 1000), Submit (tick 1100)]
       (startup (Some (js_lit ''key'')) False 0 (tick 0)))
   \<and> sequential [InputChanged (js_lit ''a''), Submit (tick 1000), Submit (tick 1100),
       Settle 0 (Resolved (Some (js_lit ''x''))) (tick 2000)]
     (startup (Some (js_lit ''key'')) False 0 (tick 0))
   \<and> inflight (run [InputChanged (js_lit ''a''), Submit (tick 1000), Submit (tick 1100),
       Settle 0 (Resolved (Some (js_lit ''x''))) (tick 2000)]
       (startup (Some (js_lit ''key'')) False 0 (tick 0))) = []
   \<and> \<not> isTyping (run [InputChanged (js_lit ''a''), Submit (tick 1000), Submit (tick 1100),
       Settle 0 (Resolved (Some (js_lit ''x''))) (tick 2000)]
       (startup (Some (js_lit ''key'')) False 0 (tick 0)))
   \<and> \<not> rejected (step (InputChanged (js_lit ''b''))
         (run [InputChanged (js_lit ''a''), Submit (tick 1000)] fresh))
   \<and> length (inflight (step (Submit (tick 1500)) (step (InputChanged (js_lit ''b''))
         (run [InputChanged (js_lit ''a''), Submit (tick 1000)] fresh)))) = 2
   \<and> (0::nat) < length (inflight (run [InputChanged (js_lit ''a''), Submit (tick 1000)] fresh))
   \<and> \<not> isTyping (step (Settle 0 (Rejected TypeError) (tick 2000))
         (run [InputChanged (js_lit ''a''), Submit (tick 1000)] fresh))"
proof -
  have s1: "sequential [InputChanged (js_lit ''a''), Submit (tick 1000), Submit (tick 1100)]
     (startup (Some (js_lit ''key'')) False 0 (tick 0))"
    by (simp add: startup_defs handler_defs eval_defs)
  have s2: "sequential [InputChanged (js_lit ''a''), Submit (tick 1000), Submit (tick 1100),
       Settle 0 (Resolved (Some (js_lit ''x''))) (tick 2000)]
     (startup (Some (js_lit ''key'')) False 0 (tick 0))"
    by (simp add: startup_defs handler_defs eval_defs)
  have r: "\<not> rejected (step (InputChanged (js_lit ''b''))
         (run [InputChanged (js_lit ''a''), Submit (tick 1000)] fresh))"
    by (simp add: fresh_eq handler_defs eval_defs)
  have k: "(0::nat) < length (inflight (run [InputChanged (js_lit ''a''), Submit (tick 1000)] fresh))"
    by (simp add: fresh_eq handler_defs eval_defs)
  show ?thesis
    using s1 s2 r k
      isTyping_sequential [of "step (InputChanged (js_lit ''b''))
         (run [InputChanged (js_lit ''a''), Submit (tick 1000)] fresh)" "tick 1500" 0
         "Rejected TypeError" "tick 2000"
         "[InputChanged (js_lit ''a''), Submit (tick 1000), Submit (tick 1100)]"
         "Some (js_lit ''key'')" False 0 "tick 0"]
      isTyping_sequential [of "run [InputChanged (js_lit ''a''), Submit (tick 1000)] fresh"
         "tick 1500" 0 "Rejected TypeError" "tick 2000"
         "[InputChanged (js_lit ''a''), Submit (tick 1000), Submit (tick 1100),
           Settle 0 (Resolved (Some (js_lit ''x''))) (tick 2000)]"
         "Some (js_lit ''key'')" False 0 "tick 0"]
    by (simp add: startup_defs fresh_eq handler_defs eval_defs)
qed

section \<open>Empty text\<close>











section \<open>Message ids\<close>

text \<open>
  C9: ids come from the clock (the greeting's is 1, a user message's is \<open>Date.now()\<close>, an
  assistant message's is \<open>Date.now() + 1\<close>). A response that arrives at millisecond 2000
  gets id 2001, and so does a message submitted at millisecond 2001: the store then holds
  two messages with the same id.
\<close>

theorem message_ids_collide:
  "map id_msg (messages (run [InputChanged (js_lit ''a''), Submit (tick 1000),
       Settle 0 (Resolved (Some (js_lit ''x''))) (tick 2000),
       InputChanged (js_lit ''b''), Submit (tick 2001)] fresh)) = [1, 1000, 2001, 2001]
   \<and> \<not> distinct (map id_msg (messages (run [InputChanged (js_lit ''a''), Submit (tick 1000),
       Settle 0 (Resolved (Some (js_lit ''x''))) (tick 2000),
       InputChanged (js_lit ''b''), Submit (tick 2001)] fresh)))"
  by (simp add: fresh_eq handler_defs eval_defs newMessage_def botResponse_def greeting_def)

section \<open>Dictation without an engine\<close>

text \<open>
  C10: when the platform has no speech recognition, no recognition object is created and
  the dictation control calls nothing, yet it sets \<open>isListening\<close> to true.
\<close>

theorem toggleListening_without_engine:
  "recognitionRef (startup key False ts c) = None
   \<and> isListening (startup key False ts c) = False
   \<and> isListening (step ToggleListening (startup key False ts c)) = True
   \<and> engineCalls (step ToggleListening (startup key False ts c)) = []
   \<and> step ToggleListening (startup key False ts c) \<noteq> startup key False ts c"
proof -
  have a: "recognitionRef (startup key False ts c) = None"
    by (simp add: startup_defs)
  have b: "isListening (startup key False ts c) = False"
    by (simp add: startup_defs)
  have t: "isListening (step ToggleListening (startup key False ts c)) = True"
    by (simp add: toggleListening_def b a)
  have d: "engineCalls (step ToggleListening (startup key False ts c)) = []"
    by (simp add: toggleListening_def b a) (simp add: startup_defs)
  from b t have "step ToggleListening (startup key False ts c) \<noteq> startup key False ts c"
    by metis
  with a b t d show ?thesis
    by blast
qed

end
